theory Spec2Isabelle
  imports Main "HOL-Library.AList" "HOL-Library.Sublist"
begin

section \<open>The MongoDB-backed note repository\<close>

text \<open>
  A shallow embedding of \<^verbatim>\<open>src/zettelkasten_mcp/storage/mongo_repository.py\<close>
  (class \<^verbatim>\<open>MongoNoteRepository\<close>). The collection is a list of documents in insertion
  order; every method takes the collection and returns the collection it leaves behind
  together with its result, an exception being the \<open>Inl\<close> branch of a sum.
\<close>

subsection \<open>Data model\<close>

text \<open>
  Modelled from the spec: \<^verbatim>\<open>models/schema.py\<close> (the declarations of NoteType,
  LinkType, Tag, Link and Note) is not among the sources. The members of the two
  enumerations and the fields of the three classes are those of the data model of the
  specification; the value of an enumeration member is its lower-case name.
  A timestamp is an integer count of clock ticks.
\<close>

type_synonym datetime = int

datatype NoteType = FLEETING | LITERATURE | PERMANENT | STRUCTURE | HUB

datatype LinkType = REFERENCE | EXTENDS | REFINES | CONTRADICTS | QUESTIONS | SUPPORTS | RELATED

fun NoteType_value :: "NoteType \<Rightarrow> string" where
  "NoteType_value FLEETING = ''fleeting''"
| "NoteType_value LITERATURE = ''literature''"
| "NoteType_value PERMANENT = ''permanent''"
| "NoteType_value STRUCTURE = ''structure''"
| "NoteType_value HUB = ''hub''"

fun LinkType_value :: "LinkType \<Rightarrow> string" where
  "LinkType_value REFERENCE = ''reference''"
| "LinkType_value EXTENDS = ''extends''"
| "LinkType_value REFINES = ''refines''"
| "LinkType_value CONTRADICTS = ''contradicts''"
| "LinkType_value QUESTIONS = ''questions''"
| "LinkType_value SUPPORTS = ''supports''"
| "LinkType_value RELATED = ''related''"

datatype error = IOError | ValueError

text \<open>
  The call \<^verbatim>\<open>NoteType(v)\<close> of a Python enumeration looks the member up by value and
  raises ValueError when there is none.
\<close>

definition NoteType_of_value :: "string \<Rightarrow> error + NoteType" where
  "NoteType_of_value v =
     (case find (\<lambda>m. NoteType_value m = v) [FLEETING, LITERATURE, PERMANENT, STRUCTURE, HUB] of
        None \<Rightarrow> Inl ValueError
      | Some m \<Rightarrow> Inr m)"

definition LinkType_of_value :: "string \<Rightarrow> error + LinkType" where
  "LinkType_of_value v =
     (case find (\<lambda>m. LinkType_value m = v)
             [REFERENCE, EXTENDS, REFINES, CONTRADICTS, QUESTIONS, SUPPORTS, RELATED] of
        None \<Rightarrow> Inl ValueError
      | Some m \<Rightarrow> Inr m)"

record Tag =
  tag_name :: string

record Link =
  source_id :: string
  target_id :: string
  link_type :: LinkType
  description :: "string option"
  link_created_at :: datetime

record Note =
  note_id :: string
  title :: string
  content :: string
  note_type :: NoteType
  tags :: "Tag list"
  links :: "Link list"
  created_at :: datetime
  updated_at :: datetime
  metadata :: "(string \<times> string) list"

subsection \<open>Stored documents\<close>

text \<open>
  A document is a dictionary; the repository reads every key with \<^verbatim>\<open>.get\<close>, so
  each key may be absent (\<open>None\<close>). The keys are the nine that
  \<^verbatim>\<open>_note_to_document\<close> writes; the \<^verbatim>\<open>_id\<close> that the server adds is
  never read by the repository and is left out. The key \<^verbatim>\<open>description\<close> holding
  Python's None and the key being absent read the same, and are both \<open>None\<close>.
\<close>

record link_document =
  ld_source_id :: "string option"
  ld_target_id :: "string option"
  ld_link_type :: "string option"
  ld_description :: "string option"
  ld_created_at :: "datetime option"

record document =
  d_id :: "string option"
  d_title :: "string option"
  d_content :: "string option"
  d_note_type :: "string option"
  d_tags :: "string list option"
  d_links :: "link_document list option"
  d_created_at :: "datetime option"
  d_updated_at :: "datetime option"
  d_metadata :: "(string \<times> string) list option"

type_synonym collection = "document list"

definition link_to_document :: "Link \<Rightarrow> link_document" where
  "link_to_document link =
     \<lparr> ld_source_id = Some (source_id link),
       ld_target_id = Some (target_id link),
       ld_link_type = Some (LinkType_value (link_type link)),
       ld_description = description link,
       ld_created_at = Some (link_created_at link) \<rparr>"

definition note_to_document :: "Note \<Rightarrow> document" where
  "note_to_document note =
     \<lparr> d_id = Some (note_id note),
       d_title = Some (title note),
       d_content = Some (content note),
       d_note_type = Some (NoteType_value (note_type note)),
       d_tags = Some (map tag_name (tags note)),
       d_links = Some (map link_to_document (links note)),
       d_created_at = Some (created_at note),
       d_updated_at = Some (updated_at note),
       d_metadata = Some (metadata note) \<rparr>"

text \<open>\<^verbatim>\<open>str(doc.get(key))\<close>: the text of an absent key is the text of Python's None.\<close>

definition str_of :: "string option \<Rightarrow> string" where
  "str_of v = (case v of None \<Rightarrow> ''None'' | Some s \<Rightarrow> s)"

definition get_or :: "'a option \<Rightarrow> 'a \<Rightarrow> 'a" where
  "get_or v dflt = (case v of None \<Rightarrow> dflt | Some x \<Rightarrow> x)"

text \<open>A list comprehension whose element expression may raise: the first error wins.\<close>

fun map_result :: "('a \<Rightarrow> error + 'b) \<Rightarrow> 'a list \<Rightarrow> error + 'b list" where
  "map_result f [] = Inr []"
| "map_result f (x # xs) =
     (case f x of
        Inl e \<Rightarrow> Inl e
      | Inr y \<Rightarrow> (case map_result f xs of Inl e \<Rightarrow> Inl e | Inr ys \<Rightarrow> Inr (y # ys)))"

text \<open>
  The source of a link read back is the identifier of the enclosing document, not the
  stored \<^verbatim>\<open>source_id\<close>. The argument \<open>now\<close> is the reading of the clock that
  stands in for an absent timestamp.
\<close>

definition document_to_link :: "datetime \<Rightarrow> document \<Rightarrow> link_document \<Rightarrow> error + Link" where
  "document_to_link now doc link =
     (case LinkType_of_value (get_or (ld_link_type link) (LinkType_value REFERENCE)) of
        Inl e \<Rightarrow> Inl e
      | Inr lt \<Rightarrow>
          Inr \<lparr> source_id = str_of (d_id doc),
                target_id = str_of (ld_target_id link),
                link_type = lt,
                description = ld_description link,
                link_created_at = get_or (ld_created_at link) now \<rparr>)"

definition document_to_note :: "datetime \<Rightarrow> document \<Rightarrow> error + Note" where
  "document_to_note now doc =
     (let tgs = map (\<lambda>t. \<lparr> tag_name = t \<rparr>) (get_or (d_tags doc) []) in
      case map_result (document_to_link now doc) (get_or (d_links doc) []) of
        Inl e \<Rightarrow> Inl e
      | Inr lks \<Rightarrow>
          (case NoteType_of_value (get_or (d_note_type doc) (NoteType_value PERMANENT)) of
             Inl e \<Rightarrow> Inl e
           | Inr nt \<Rightarrow>
               Inr \<lparr> note_id = str_of (d_id doc),
                     title = get_or (d_title doc) [],
                     content = get_or (d_content doc) [],
                     note_type = nt,
                     tags = tgs,
                     links = lks,
                     created_at = get_or (d_created_at doc) now,
                     updated_at = get_or (d_updated_at doc) now,
                     metadata = get_or (d_metadata doc) [] \<rparr>))"

subsection \<open>The collection: filters\<close>

text \<open>
  The calls \<^verbatim>\<open>insert_one\<close>, \<^verbatim>\<open>find\<close>, \<^verbatim>\<open>find_one\<close>,
  \<^verbatim>\<open>update_one\<close> and \<^verbatim>\<open>delete_one\<close> go to the database server. They are
  modelled by the server's documented behaviour on the filters the repository builds,
  which is also what \<^verbatim>\<open>FakeCollection\<close> of \<^verbatim>\<open>tests/test_mongo_repository.py\<close>
  implements: a filter maps a field path to a plain value (equality) or to a dictionary of
  operators; a path into an array field yields every element, and a condition holds when
  some yielded value satisfies it.
\<close>

datatype fieldkey =
  K_id | K_title | K_content | K_note_type | K_tags | K_links_target_id
  | K_created_at | K_updated_at

definition all_keys :: "fieldkey list" where
  "all_keys = [K_id, K_title, K_content, K_note_type, K_tags, K_links_target_id,
               K_created_at, K_updated_at]"

datatype val = S string | D datetime

definition opt_list :: "'a option \<Rightarrow> 'a list" where
  "opt_list v = (case v of None \<Rightarrow> [] | Some x \<Rightarrow> [x])"

fun field_values :: "fieldkey \<Rightarrow> document \<Rightarrow> val list" where
  "field_values K_id d = map S (opt_list (d_id d))"
| "field_values K_title d = map S (opt_list (d_title d))"
| "field_values K_content d = map S (opt_list (d_content d))"
| "field_values K_note_type d = map S (opt_list (d_note_type d))"
| "field_values K_tags d = map S (get_or (d_tags d) [])"
| "field_values K_links_target_id d =
     map S (concat (map (\<lambda>l. opt_list (ld_target_id l)) (get_or (d_links d) [])))"
| "field_values K_created_at d = map D (opt_list (d_created_at d))"
| "field_values K_updated_at d = map D (opt_list (d_updated_at d))"

text \<open>
  Regular expressions. The server's pattern language is modelled on the fragment whose
  patterns consist of ordinary characters and the dot: an ordinary character matches
  itself and, under option \<open>i\<close>, every character with the same case folding; the
  dot matches any character but the line feed. A pattern that uses any other
  metacharacter is outside the fragment and \<open>parse_regex\<close> gives \<open>None\<close> for it.
  A \<open>char\<close> stands for one character of a Python string. Which characters differ only
  in case is decided by the engine that evaluates the pattern, not by the repository:
  its case folding is the argument \<open>casefold\<close> of \<open>compile\<close>.
\<close>

datatype ratom = Lit char | Dot

type_synonym regex = "ratom list"

definition metachars :: "char list" where
  "metachars = CHR 0x5C # ''^$.|?*+()[]{}''"

definition parse_atom :: "char \<Rightarrow> ratom option" where
  "parse_atom ch =
     (if ch = CHR ''.'' then Some Dot
      else if ch \<in> set metachars then None
      else Some (Lit ch))"

fun parse_regex :: "string \<Rightarrow> regex option" where
  "parse_regex [] = Some []"
| "parse_regex (ch # p) =
     (case parse_atom ch of
        None \<Rightarrow> None
      | Some a \<Rightarrow> (case parse_regex p of None \<Rightarrow> None | Some r \<Rightarrow> Some (a # r)))"

text \<open>
  A pattern compiled under its options, as \<^verbatim>\<open>re.search(pattern, v, flags)\<close> of the
  test double takes it: the atoms and, when the options hold \<open>i\<close>, the case folding in
  effect (\<open>None\<close>: characters are compared as they are).
\<close>

datatype compiled = Compiled regex "(char \<Rightarrow> char) option"

definition compile :: "(char \<Rightarrow> char) \<Rightarrow> string \<Rightarrow> string \<Rightarrow> compiled option" where
  "compile casefold p opts =
     (case parse_regex p of
        None \<Rightarrow> None
      | Some r \<Rightarrow> Some (Compiled r (if CHR ''i'' \<in> set opts then Some casefold else None)))"

fun atom_matches :: "(char \<Rightarrow> char) option \<Rightarrow> ratom \<Rightarrow> char \<Rightarrow> bool" where
  "atom_matches None (Lit a) ch = (a = ch)"
| "atom_matches (Some cf) (Lit a) ch = (cf a = cf ch)"
| "atom_matches fo Dot ch = (ch \<noteq> CHR 0x0A)"

fun match_here :: "(char \<Rightarrow> char) option \<Rightarrow> regex \<Rightarrow> string \<Rightarrow> bool" where
  "match_here fo [] s = True"
| "match_here fo (a # r) [] = False"
| "match_here fo (a # r) (ch # s) = (atom_matches fo a ch \<and> match_here fo r s)"

fun regex_search :: "(char \<Rightarrow> char) option \<Rightarrow> regex \<Rightarrow> string \<Rightarrow> bool" where
  "regex_search fo r [] = match_here fo r []"
| "regex_search fo r (ch # s) = (match_here fo r (ch # s) \<or> regex_search fo r s)"

text \<open>
  A dictionary of operators. Under \<open>op_regex\<close> is the pattern of \<^verbatim>\<open>$regex\<close>
  compiled under the \<^verbatim>\<open>$options\<close> sent with it.
\<close>

record operators =
  op_regex :: "compiled option"
  op_in :: "val list option"
  op_gte :: "datetime option"
  op_lte :: "datetime option"

definition no_operators :: operators where
  "no_operators = \<lparr> op_regex = None, op_in = None, op_gte = None, op_lte = None \<rparr>"

datatype cond = Equals val | Operators operators

type_synonym query = "fieldkey \<rightharpoonup> cond"

fun regex_holds :: "compiled \<Rightarrow> val \<Rightarrow> bool" where
  "regex_holds (Compiled r fo) (S s) = regex_search fo r s"
| "regex_holds cp (D t) = False"

fun gte_holds :: "datetime \<Rightarrow> val \<Rightarrow> bool" where
  "gte_holds b (D t) = (b \<le> t)"
| "gte_holds b (S s) = False"

fun lte_holds :: "datetime \<Rightarrow> val \<Rightarrow> bool" where
  "lte_holds b (D t) = (t \<le> b)"
| "lte_holds b (S s) = False"

fun cond_holds :: "cond \<Rightarrow> val list \<Rightarrow> bool" where
  "cond_holds (Equals v) vs = list_ex (\<lambda>x. x = v) vs"
| "cond_holds (Operators ops) vs =
     ((case op_regex ops of
         None \<Rightarrow> True
       | Some cp \<Rightarrow> list_ex (regex_holds cp) vs)
      \<and> (case op_in ops of None \<Rightarrow> True | Some xs \<Rightarrow> list_ex (\<lambda>x. x \<in> set xs) vs)
      \<and> (case op_gte ops of None \<Rightarrow> True | Some b \<Rightarrow> list_ex (gte_holds b) vs)
      \<and> (case op_lte ops of None \<Rightarrow> True | Some b \<Rightarrow> list_ex (lte_holds b) vs))"

definition key_holds :: "query \<Rightarrow> document \<Rightarrow> fieldkey \<Rightarrow> bool" where
  "key_holds q d k = (case q k of None \<Rightarrow> True | Some cnd \<Rightarrow> cond_holds cnd (field_values k d))"

definition matches :: "query \<Rightarrow> document \<Rightarrow> bool" where
  "matches q d = list_all (key_holds q d) all_keys"

subsection \<open>The collection: operations\<close>

definition find_docs :: "collection \<Rightarrow> query \<Rightarrow> document list" where
  "find_docs c q = filter (matches q) c"

definition find_one :: "collection \<Rightarrow> query \<Rightarrow> document option" where
  "find_one c q = (case find_docs c q of [] \<Rightarrow> None | d # _ \<Rightarrow> Some d)"

text \<open>
  The constructor declares a unique index on \<^verbatim>\<open>id\<close> and plain indexes on the
  other fields: an insert is refused, and changes nothing, when a stored document has the
  same \<^verbatim>\<open>id\<close>.
\<close>

datatype pymongo_error = DuplicateKeyError

definition insert_one :: "collection \<Rightarrow> document \<Rightarrow> collection \<times> (pymongo_error + unit)" where
  "insert_one c doc =
     (if list_ex (\<lambda>e. d_id e = d_id doc) c then (c, Inl DuplicateKeyError)
      else (c @ [doc], Inr ()))"

text \<open>\<^verbatim>\<open>$set\<close>: every key of the update document overwrites that key.\<close>

definition apply_set :: "document \<Rightarrow> document \<Rightarrow> document" where
  "apply_set upd old =
     \<lparr> d_id = (case d_id upd of None \<Rightarrow> d_id old | Some v \<Rightarrow> Some v),
       d_title = (case d_title upd of None \<Rightarrow> d_title old | Some v \<Rightarrow> Some v),
       d_content = (case d_content upd of None \<Rightarrow> d_content old | Some v \<Rightarrow> Some v),
       d_note_type = (case d_note_type upd of None \<Rightarrow> d_note_type old | Some v \<Rightarrow> Some v),
       d_tags = (case d_tags upd of None \<Rightarrow> d_tags old | Some v \<Rightarrow> Some v),
       d_links = (case d_links upd of None \<Rightarrow> d_links old | Some v \<Rightarrow> Some v),
       d_created_at = (case d_created_at upd of None \<Rightarrow> d_created_at old | Some v \<Rightarrow> Some v),
       d_updated_at = (case d_updated_at upd of None \<Rightarrow> d_updated_at old | Some v \<Rightarrow> Some v),
       d_metadata = (case d_metadata upd of None \<Rightarrow> d_metadata old | Some v \<Rightarrow> Some v) \<rparr>"

text \<open>
  The first matching document is updated; the second component is
  \<^verbatim>\<open>matched_count\<close>. (The test double updates every match, which is the same
  thing when identifiers are unique.)
\<close>

fun update_one :: "collection \<Rightarrow> query \<Rightarrow> document \<Rightarrow> collection \<times> nat" where
  "update_one [] q upd = ([], 0)"
| "update_one (d # ds) q upd =
     (if matches q d then (apply_set upd d # ds, 1)
      else (case update_one ds q upd of (ds', m) \<Rightarrow> (d # ds', m)))"

text \<open>The first matching document is removed; the second component is \<^verbatim>\<open>deleted_count\<close>.\<close>

fun delete_one :: "collection \<Rightarrow> query \<Rightarrow> collection \<times> nat" where
  "delete_one [] q = ([], 0)"
| "delete_one (d # ds) q =
     (if matches q d then (ds, 1)
      else (case delete_one ds q of (ds', m) \<Rightarrow> (d # ds', m)))"

subsection \<open>CRUD interface\<close>

definition id_query :: "string \<Rightarrow> query" where
  "id_query i = [K_id \<mapsto> Equals (S i)]"

text \<open>
  \<^verbatim>\<open>generate_id\<close> belongs to the absent \<^verbatim>\<open>models/schema.py\<close>; the identifier it
  returns is the argument \<open>gen\<close>. A duplicate-key error of the server is a PyMongoError
  and is raised again as IOError.
\<close>

definition create :: "string \<Rightarrow> collection \<Rightarrow> Note \<Rightarrow> collection \<times> (error + Note)" where
  "create gen c entity =
     (let note = (if note_id entity = [] then entity\<lparr>note_id := gen\<rparr> else entity);
          doc = note_to_document note
      in case insert_one c doc of
           (c', Inl exc) \<Rightarrow> (c', Inl IOError)
         | (c', Inr _) \<Rightarrow> (c', Inr note))"

definition get :: "datetime \<Rightarrow> collection \<Rightarrow> string \<Rightarrow> error + Note option" where
  "get now c i =
     (case find_one c (id_query i) of
        None \<Rightarrow> Inr None
      | Some doc \<Rightarrow> (case document_to_note now doc of Inl e \<Rightarrow> Inl e | Inr n \<Rightarrow> Inr (Some n)))"

definition get_all :: "datetime \<Rightarrow> collection \<Rightarrow> error + Note list" where
  "get_all now c = map_result (document_to_note now) (find_docs c Map.empty)"

definition get_by_title :: "datetime \<Rightarrow> collection \<Rightarrow> string \<Rightarrow> error + Note option" where
  "get_by_title now c t =
     (case find_one c [K_title \<mapsto> Equals (S t)] of
        None \<Rightarrow> Inr None
      | Some doc \<Rightarrow> (case document_to_note now doc of Inl e \<Rightarrow> Inl e | Inr n \<Rightarrow> Inr (Some n)))"

text \<open>\<open>now\<close> is the reading of the clock assigned to \<^verbatim>\<open>updated_at\<close>.\<close>

definition update :: "datetime \<Rightarrow> collection \<Rightarrow> Note \<Rightarrow> collection \<times> (error + Note)" where
  "update now c entity =
     (let note = entity\<lparr>updated_at := now\<rparr>;
          doc = note_to_document note
      in case update_one c (id_query (note_id note)) doc of
           (c', matched_count) \<Rightarrow>
             if matched_count = 0 then (c', Inl ValueError) else (c', Inr note))"

definition delete :: "collection \<Rightarrow> string \<Rightarrow> collection \<times> (error + unit)" where
  "delete c i =
     (case delete_one c (id_query i) of
        (c', deleted_count) \<Rightarrow>
          if deleted_count = 0 then (c', Inl ValueError) else (c', Inr ()))"

subsection \<open>Query helpers\<close>

text \<open>
  The keyword arguments of \<^verbatim>\<open>search\<close>: each recognised keyword is present
  (\<open>Some\<close>) or not. The value of \<^verbatim>\<open>note_type\<close> is a NoteType member or
  anything else, taken by its text; the value of \<^verbatim>\<open>tags\<close> is a sequence or
  something that is not one.
\<close>

datatype note_type_arg = Member NoteType | Other string

datatype tags_arg = TagSequence "string list" | NotASequence

record search_kwargs =
  kw_content :: "string option"
  kw_title :: "string option"
  kw_note_type :: "note_type_arg option"
  kw_tag :: "string option"
  kw_tags :: "tags_arg option"
  kw_linked_to :: "string option"
  kw_linked_from :: "string option"
  kw_created_after :: "datetime option"
  kw_created_before :: "datetime option"
  kw_updated_after :: "datetime option"
  kw_updated_before :: "datetime option"

definition no_kwargs :: search_kwargs where
  "no_kwargs =
     \<lparr> kw_content = None, kw_title = None, kw_note_type = None, kw_tag = None, kw_tags = None,
       kw_linked_to = None, kw_linked_from = None, kw_created_after = None,
       kw_created_before = None, kw_updated_after = None, kw_updated_before = None \<rparr>"

text \<open>
  The filter \<^verbatim>\<open>{"$regex": p, "$options": opts}\<close>, when \<open>p\<close> is in the fragment, for
  an engine with the case folding \<open>casefold\<close>.
\<close>

definition regex_cond :: "(char \<Rightarrow> char) \<Rightarrow> string \<Rightarrow> string \<Rightarrow> cond option" where
  "regex_cond casefold p opts =
     (case compile casefold p opts of
        None \<Rightarrow> None
      | Some cp \<Rightarrow> Some (Operators (no_operators\<lparr>op_regex := Some cp\<rparr>)))"

text \<open>
  \<^verbatim>\<open>query.setdefault(key, {})\<close> followed by the assignment of one operator: the
  dictionary already under the key is kept. (Only an operator dictionary can be there.)
\<close>

definition operators_at :: "query \<Rightarrow> fieldkey \<Rightarrow> operators" where
  "operators_at q k = (case q k of Some (Operators ops) \<Rightarrow> ops | _ \<Rightarrow> no_operators)"

text \<open>One definition for each \<^verbatim>\<open>if\<close> of \<^verbatim>\<open>search\<close>, in the order of the source.\<close>

definition set_content :: "(char \<Rightarrow> char) \<Rightarrow> search_kwargs \<Rightarrow> query \<Rightarrow> query option" where
  "set_content casefold kw q =
     (case kw_content kw of
        None \<Rightarrow> Some q
      | Some p \<Rightarrow>
          (case regex_cond casefold p ''i'' of
             None \<Rightarrow> None
           | Some cnd \<Rightarrow> Some (q(K_content \<mapsto> cnd))))"

definition set_title :: "(char \<Rightarrow> char) \<Rightarrow> search_kwargs \<Rightarrow> query \<Rightarrow> query option" where
  "set_title casefold kw q =
     (case kw_title kw of
        None \<Rightarrow> Some q
      | Some p \<Rightarrow>
          (case regex_cond casefold p ''i'' of
             None \<Rightarrow> None
           | Some cnd \<Rightarrow> Some (q(K_title \<mapsto> cnd))))"

definition set_note_type :: "search_kwargs \<Rightarrow> query \<Rightarrow> query" where
  "set_note_type kw q =
     (case kw_note_type kw of
        None \<Rightarrow> q
      | Some (Member m) \<Rightarrow> q(K_note_type \<mapsto> Equals (S (NoteType_value m)))
      | Some (Other s) \<Rightarrow> q(K_note_type \<mapsto> Equals (S s)))"

definition set_tag :: "search_kwargs \<Rightarrow> query \<Rightarrow> query" where
  "set_tag kw q = (case kw_tag kw of None \<Rightarrow> q | Some t \<Rightarrow> q(K_tags \<mapsto> Equals (S t)))"

definition set_tags :: "search_kwargs \<Rightarrow> query \<Rightarrow> query" where
  "set_tags kw q =
     (case kw_tags kw of
        Some (TagSequence ts) \<Rightarrow> q(K_tags \<mapsto> Operators (no_operators\<lparr>op_in := Some (map S ts)\<rparr>))
      | _ \<Rightarrow> q)"

definition set_linked_to :: "search_kwargs \<Rightarrow> query \<Rightarrow> query" where
  "set_linked_to kw q =
     (case kw_linked_to kw of None \<Rightarrow> q | Some i \<Rightarrow> q(K_links_target_id \<mapsto> Equals (S i)))"

definition set_linked_from :: "search_kwargs \<Rightarrow> query \<Rightarrow> query" where
  "set_linked_from kw q =
     (case kw_linked_from kw of None \<Rightarrow> q | Some i \<Rightarrow> q(K_links_target_id \<mapsto> Equals (S i)))"

definition set_created_after :: "search_kwargs \<Rightarrow> query \<Rightarrow> query" where
  "set_created_after kw q =
     (case kw_created_after kw of
        None \<Rightarrow> q
      | Some t \<Rightarrow> q(K_created_at \<mapsto> Operators (no_operators\<lparr>op_gte := Some t\<rparr>)))"

definition set_created_before :: "search_kwargs \<Rightarrow> query \<Rightarrow> query" where
  "set_created_before kw q =
     (case kw_created_before kw of
        None \<Rightarrow> q
      | Some t \<Rightarrow> q(K_created_at \<mapsto> Operators ((operators_at q K_created_at)\<lparr>op_lte := Some t\<rparr>)))"

definition set_updated_after :: "search_kwargs \<Rightarrow> query \<Rightarrow> query" where
  "set_updated_after kw q =
     (case kw_updated_after kw of
        None \<Rightarrow> q
      | Some t \<Rightarrow> q(K_updated_at \<mapsto> Operators (no_operators\<lparr>op_gte := Some t\<rparr>)))"

definition set_updated_before :: "search_kwargs \<Rightarrow> query \<Rightarrow> query" where
  "set_updated_before kw q =
     (case kw_updated_before kw of
        None \<Rightarrow> q
      | Some t \<Rightarrow> q(K_updated_at \<mapsto> Operators ((operators_at q K_updated_at)\<lparr>op_lte := Some t\<rparr>)))"

text \<open>The query dictionary that \<^verbatim>\<open>search\<close> builds; \<open>None\<close> when a pattern is outside
  the modelled fragment of regular expressions.\<close>

definition search_query :: "(char \<Rightarrow> char) \<Rightarrow> search_kwargs \<Rightarrow> query option" where
  "search_query casefold kw =
     (case set_content casefold kw Map.empty of
        None \<Rightarrow> None
      | Some q1 \<Rightarrow>
          (case set_title casefold kw q1 of
             None \<Rightarrow> None
           | Some q2 \<Rightarrow>
               Some (set_updated_before kw (set_updated_after kw
                      (set_created_before kw (set_created_after kw
                        (set_linked_from kw (set_linked_to kw
                          (set_tags kw (set_tag kw (set_note_type kw q2)))))))))))"

text \<open>\<open>casefold\<close> is the case folding of the engine that evaluates the filter.\<close>

definition search ::
  "(char \<Rightarrow> char) \<Rightarrow> datetime \<Rightarrow> collection \<Rightarrow> search_kwargs \<Rightarrow> (error + Note list) option" where
  "search casefold now c kw =
     (case search_query casefold kw of
        None \<Rightarrow> None
      | Some q \<Rightarrow> Some (map_result (document_to_note now) (find_docs c q)))"

text \<open>
  \<^verbatim>\<open>find_linked_notes\<close>. The dictionary \<^verbatim>\<open>results\<close> keeps its keys in the order
  of their first insertion; assigning to a key that is present replaces the value in
  place, which is \<open>AList.update\<close>.
\<close>

type_synonym results = "(string \<times> Note) list"

fun outgoing_loop :: "datetime \<Rightarrow> collection \<Rightarrow> Link list \<Rightarrow> results \<Rightarrow> error + results" where
  "outgoing_loop now c [] res = Inr res"
| "outgoing_loop now c (link # rest) res =
     (case get now c (target_id link) of
        Inl e \<Rightarrow> Inl e
      | Inr None \<Rightarrow> outgoing_loop now c rest res
      | Inr (Some target) \<Rightarrow>
          outgoing_loop now c rest (AList.update (note_id target) target res))"

fun incoming_loop :: "datetime \<Rightarrow> string \<Rightarrow> document list \<Rightarrow> results \<Rightarrow> error + results" where
  "incoming_loop now i [] res = Inr res"
| "incoming_loop now i (doc # rest) res =
     (if d_id doc = Some i then incoming_loop now i rest res
      else (case document_to_note now doc of
              Inl e \<Rightarrow> Inl e
            | Inr note \<Rightarrow> incoming_loop now i rest (AList.update (note_id note) note res)))"

definition outgoing_part :: "datetime \<Rightarrow> collection \<Rightarrow> string \<Rightarrow> results \<Rightarrow> error + results" where
  "outgoing_part now c i res =
     (case get now c i of
        Inl e \<Rightarrow> Inl e
      | Inr None \<Rightarrow> Inr res
      | Inr (Some note) \<Rightarrow> outgoing_loop now c (links note) res)"

definition incoming_part :: "datetime \<Rightarrow> collection \<Rightarrow> string \<Rightarrow> results \<Rightarrow> error + results" where
  "incoming_part now c i res =
     incoming_loop now i (find_docs c [K_links_target_id \<mapsto> Equals (S i)]) res"

definition find_linked_notes ::
  "datetime \<Rightarrow> collection \<Rightarrow> string \<Rightarrow> string \<Rightarrow> error + Note list" where
  "find_linked_notes now c i direction =
     (if direction \<notin> {''outgoing'', ''incoming'', ''both''} then Inl ValueError
      else
        (case (if direction \<in> {''outgoing'', ''both''} then outgoing_part now c i []
               else Inr []) of
           Inl e \<Rightarrow> Inl e
         | Inr res \<Rightarrow>
             (case (if direction \<in> {''incoming'', ''both''} then incoming_part now c i res
                    else Inr res) of
                Inl e \<Rightarrow> Inl e
              | Inr res' \<Rightarrow> Inr (map snd res'))))"

subsection \<open>Index maintenance\<close>

text \<open>\<^verbatim>\<open>rebuild_index\<close> returns None at once: the collection is left as it is.\<close>

definition rebuild_index :: "collection \<Rightarrow> collection" where
  "rebuild_index c = c"

subsection \<open>Notions of the specification\<close>

text \<open>
  A string contains another as a substring, ignoring case: after the case folding of
  both, the second has the first as a contiguous segment.
\<close>

definition contains_ignoring_case :: "(char \<Rightarrow> char) \<Rightarrow> string \<Rightarrow> string \<Rightarrow> bool" where
  "contains_ignoring_case casefold s t = sublist (map casefold s) (map casefold t)"

text \<open>
  A timestamp lies within a range that is inclusive at both ends; an absent bound does
  not constrain its side. A document without the timestamp is within the range only when
  both bounds are absent.
\<close>

definition within :: "datetime option \<Rightarrow> datetime option \<Rightarrow> datetime option \<Rightarrow> bool" where
  "within lo hi v =
     ((lo = None \<and> hi = None)
      \<or> (case v of
            None \<Rightarrow> False
          | Some t \<Rightarrow> (case lo of None \<Rightarrow> True | Some a \<Rightarrow> a \<le> t)
                      \<and> (case hi of None \<Rightarrow> True | Some b \<Rightarrow> t \<le> b)))"




text \<open>
  The states of the repository: the empty collection and whatever create, update and
  delete leave behind, when every note handed to create or update satisfies \<open>P\<close>.
  (The reading methods and \<open>rebuild_index\<close> leave the collection as it is.)
\<close>

inductive reachable :: "(Note \<Rightarrow> bool) \<Rightarrow> collection \<Rightarrow> bool" for P where
  initial: "reachable P []"
| by_create: "reachable P c \<Longrightarrow> P n \<Longrightarrow> reachable P (fst (create gen c n))"
| by_update: "reachable P c \<Longrightarrow> P n \<Longrightarrow> reachable P (fst (update now c n))"
| by_delete: "reachable P c \<Longrightarrow> reachable P (fst (delete c i))"

definition any_note :: "Note \<Rightarrow> bool" where
  "any_note n = True"

text \<open>Invariants used in the proofs: of the collection, and of the dictionary of results.\<close>

definition stored_ok :: "(Note \<Rightarrow> bool) \<Rightarrow> collection \<Rightarrow> bool" where
  "stored_ok P c \<longleftrightarrow>
     distinct (map d_id c) \<and> (\<forall>d \<in> set c. \<exists>n. P n \<and> d = note_to_document n)"

definition consistent :: "datetime \<Rightarrow> collection \<Rightarrow> results \<Rightarrow> bool" where
  "consistent now c res \<longleftrightarrow>
     distinct (map fst res) \<and> (\<forall>k v. (k, v) \<in> set res \<longrightarrow> get now c k = Inr (Some v))"

subsection \<open>Example data\<close>

text \<open>
  The case folding used in the examples: that of the first 256 characters, where the
  capitals are the letters A to Z and the accented capitals from 192 to 222 (the
  multiplication sign 215 apart), each 32 below its small letter.
\<close>

definition latin1_casefold :: "char \<Rightarrow> char" where
  "latin1_casefold ch =
     (let n = (of_char ch :: nat) in
      if (65 \<le> n \<and> n \<le> 90) \<or> (192 \<le> n \<and> n \<le> 222 \<and> n \<noteq> 215) then char_of (n + 32)
      else ch)"

definition example_link :: Link where
  "example_link =
     \<lparr> source_id = ''n1'', target_id = ''n2'', link_type = SUPPORTS,
       description = Some ''see also'', link_created_at = 5 \<rparr>"

definition example_link2 :: Link where
  "example_link2 =
     \<lparr> source_id = ''n1'', target_id = ''n3'', link_type = REFERENCE,
       description = None, link_created_at = 9 \<rparr>"

definition example_note :: Note where
  "example_note =
     \<lparr> note_id = ''n1'', title = ''Alpha'', content = ''first note'', note_type = LITERATURE,
       tags = [\<lparr> tag_name = ''a'' \<rparr>, \<lparr> tag_name = ''b'' \<rparr>], links = [example_link],
       created_at = 3, updated_at = 4, metadata = [(''k'', ''v'')] \<rparr>"

definition example_note2 :: Note where
  "example_note2 =
     \<lparr> note_id = ''n2'', title = ''Alpha'', content = ''second note'', note_type = PERMANENT,
       tags = [\<lparr> tag_name = ''a'' \<rparr>], links = [],
       created_at = 6, updated_at = 6, metadata = [] \<rparr>"

text \<open>A note with three links, two of them to the same target.\<close>

definition example_note3 :: Note where
  "example_note3 =
     \<lparr> note_id = ''n3'', title = ''Gamma'', content = ''third note'', note_type = HUB,
       tags = [],
       links = [\<lparr> source_id = ''n3'', target_id = ''n2'', link_type = SUPPORTS,
                  description = None, link_created_at = 7 \<rparr>,
                \<lparr> source_id = ''n3'', target_id = ''n2'', link_type = REFERENCE,
                  description = None, link_created_at = 7 \<rparr>,
                \<lparr> source_id = ''n3'', target_id = ''n1'', link_type = SUPPORTS,
                  description = Some ''back'', link_created_at = 8 \<rparr>],
       created_at = 7, updated_at = 8, metadata = [] \<rparr>"

text \<open>The first note with a new title and a second link, as handed to update.\<close>

definition example_note_upd :: Note where
  "example_note_upd = example_note\<lparr>title := ''Beta'', links := [example_link, example_link2]\<rparr>"

text \<open>The same note with its first link given twice.\<close>

definition duplicate_links_note :: Note where
  "duplicate_links_note = example_note\<lparr>links := [example_link, example_link]\<rparr>"

text \<open>A note titled \<open>Ete\<close> with an acute accent on both letters e, the first a capital.\<close>

definition accent_note :: Note where
  "accent_note =
     \<lparr> note_id = ''n4'', title = [CHR 0xC9, CHR ''t'', CHR 0xE9], content = ''summer'',
       note_type = FLEETING, tags = [], links = [],
       created_at = 10, updated_at = 10, metadata = [] \<rparr>"

text \<open>The documents stored for these notes, written out key by key.\<close>

definition example_document :: document where
  "example_document =
     \<lparr> d_id = Some ''n1'', d_title = Some ''Alpha'', d_content = Some ''first note'',
       d_note_type = Some ''literature'', d_tags = Some [''a'', ''b''],
       d_links = Some [\<lparr> ld_source_id = Some ''n1'', ld_target_id = Some ''n2'',
                          ld_link_type = Some ''supports'', ld_description = Some ''see also'',
                          ld_created_at = Some 5 \<rparr>],
       d_created_at = Some 3, d_updated_at = Some 4, d_metadata = Some [(''k'', ''v'')] \<rparr>"

definition example_document2 :: document where
  "example_document2 =
     \<lparr> d_id = Some ''n2'', d_title = Some ''Alpha'', d_content = Some ''second note'',
       d_note_type = Some ''permanent'', d_tags = Some [''a''], d_links = Some [],
       d_created_at = Some 6, d_updated_at = Some 6, d_metadata = Some [] \<rparr>"

definition example_document3 :: document where
  "example_document3 =
     \<lparr> d_id = Some ''n3'', d_title = Some ''Gamma'', d_content = Some ''third note'',
       d_note_type = Some ''hub'', d_tags = Some [],
       d_links = Some [\<lparr> ld_source_id = Some ''n3'', ld_target_id = Some ''n2'',
                          ld_link_type = Some ''supports'', ld_description = None,
                          ld_created_at = Some 7 \<rparr>,
                       \<lparr> ld_source_id = Some ''n3'', ld_target_id = Some ''n2'',
                          ld_link_type = Some ''reference'', ld_description = None,
                          ld_created_at = Some 7 \<rparr>,
                       \<lparr> ld_source_id = Some ''n3'', ld_target_id = Some ''n1'',
                          ld_link_type = Some ''supports'', ld_description = Some ''back'',
                          ld_created_at = Some 8 \<rparr>],
       d_created_at = Some 7, d_updated_at = Some 8, d_metadata = Some [] \<rparr>"

text \<open>The document of \<open>example_note_upd\<close> after an update at time 9.\<close>

definition example_document_upd :: document where
  "example_document_upd =
     \<lparr> d_id = Some ''n1'', d_title = Some ''Beta'', d_content = Some ''first note'',
       d_note_type = Some ''literature'', d_tags = Some [''a'', ''b''],
       d_links = Some [\<lparr> ld_source_id = Some ''n1'', ld_target_id = Some ''n2'',
                          ld_link_type = Some ''supports'', ld_description = Some ''see also'',
                          ld_created_at = Some 5 \<rparr>,
                       \<lparr> ld_source_id = Some ''n1'', ld_target_id = Some ''n3'',
                          ld_link_type = Some ''reference'', ld_description = None,
                          ld_created_at = Some 9 \<rparr>],
       d_created_at = Some 3, d_updated_at = Some 9, d_metadata = Some [(''k'', ''v'')] \<rparr>"

text \<open>The document of \<open>duplicate_links_note\<close> after an update at time 9.\<close>

definition duplicate_links_document :: document where
  "duplicate_links_document =
     \<lparr> d_id = Some ''n1'', d_title = Some ''Alpha'', d_content = Some ''first note'',
       d_note_type = Some ''literature'', d_tags = Some [''a'', ''b''],
       d_links = Some [\<lparr> ld_source_id = Some ''n1'', ld_target_id = Some ''n2'',
                          ld_link_type = Some ''supports'', ld_description = Some ''see also'',
                          ld_created_at = Some 5 \<rparr>,
                       \<lparr> ld_source_id = Some ''n1'', ld_target_id = Some ''n2'',
                          ld_link_type = Some ''supports'', ld_description = Some ''see also'',
                          ld_created_at = Some 5 \<rparr>],
       d_created_at = Some 3, d_updated_at = Some 9, d_metadata = Some [(''k'', ''v'')] \<rparr>"

definition accent_document :: document where
  "accent_document =
     \<lparr> d_id = Some ''n4'', d_title = Some [CHR 0xC9, CHR ''t'', CHR 0xE9],
       d_content = Some ''summer'', d_note_type = Some ''fleeting'', d_tags = Some [],
       d_links = Some [], d_created_at = Some 10, d_updated_at = Some 10,
       d_metadata = Some [] \<rparr>"

definition example_collection :: collection where
  "example_collection = [example_document, example_document2]"

definition linked_collection :: collection where
  "linked_collection = [example_document_upd, example_document2, example_document3]"

section \<open>Properties\<close>

lemma NoteType_roundtrip: "NoteType_of_value (NoteType_value t) = Inr t"
  by (cases t) (simp_all add: NoteType_of_value_def)

lemma LinkType_roundtrip: "LinkType_of_value (LinkType_value t) = Inr t"
  by (cases t) (simp_all add: LinkType_of_value_def)

lemma document_to_link_roundtrip:
  "document_to_link now (note_to_document n) (link_to_document l) = Inr (l\<lparr>source_id := note_id n\<rparr>)"
  by (simp add: document_to_link_def link_to_document_def note_to_document_def get_or_def
      str_of_def LinkType_roundtrip)

lemma map_result_links_roundtrip:
  "map_result (document_to_link now (note_to_document n)) (map link_to_document ls)
     = Inr (map (\<lambda>l. l\<lparr>source_id := note_id n\<rparr>) ls)"
  by (induction ls) (simp_all add: document_to_link_roundtrip)

lemma document_to_note_of_note:
  "document_to_note now (note_to_document n)
     = Inr (n\<lparr>links := map (\<lambda>l. l\<lparr>source_id := note_id n\<rparr>) (links n)\<rparr>)"
proof -
  have tg: "map ((\<lambda>t. \<lparr> tag_name = t \<rparr>) \<circ> tag_name) (tags n) = tags n"
    by (induction "tags n") (simp_all add: map_idI)
  have lk: "map_result (document_to_link now (note_to_document n))
              (get_or (d_links (note_to_document n)) [])
            = Inr (map (\<lambda>l. l\<lparr>source_id := note_id n\<rparr>) (links n))"
    using map_result_links_roundtrip [of now n "links n"]
    by (simp add: note_to_document_def get_or_def)
  show ?thesis
    unfolding document_to_note_def Let_def lk
    by (simp add: note_to_document_def get_or_def str_of_def NoteType_roundtrip tg)
qed


text \<open>
  Claim C10. Converting a note to a document and back gives the note itself, in every
  field (identifier, title, content, note type, tags, links, both timestamps and
  metadata), provided each of its links has the note's own identifier as its source.
\<close>

theorem document_note_roundtrip:
  assumes "\<forall>l \<in> set (links n). source_id l = note_id n"
  shows "document_to_note now (note_to_document n) = Inr n"
proof -
  have "map (\<lambda>l. l\<lparr>source_id := note_id n\<rparr>) (links n) = links n"
    using assms by (simp add: map_idI)
  then show ?thesis
    by (simp add: document_to_note_of_note)
qed

theorem document_note_roundtrip_witness:
  "document_to_note 9 (note_to_document example_note) = Inr example_note"
proof -
  have h: "\<forall>l \<in> set (links example_note). source_id l = note_id example_note"
    by (simp add: example_note_def example_link_def)
  show ?thesis
    using document_note_roundtrip [OF h, of 9] .
qed

text \<open>
  Claim C8. Rebuilding the index is idempotent: a second run leaves the collection in
  the state the first run left it in. (For this backend the operation changes nothing.)
\<close>

theorem rebuild_index_idempotent:
  "rebuild_index (rebuild_index c) = rebuild_index c"
  by (simp add: rebuild_index_def)


subsection \<open>Create, update, delete\<close>

lemma matches_id_query: "matches (id_query i) d \<longleftrightarrow> d_id d = Some i"
  by (cases "d_id d") (auto simp: matches_def id_query_def all_keys_def key_holds_def opt_list_def)

lemma apply_set_note_to_document: "apply_set (note_to_document n) d = note_to_document n"
  by (simp add: apply_set_def note_to_document_def)

lemma example_documents:
  "note_to_document example_note = example_document"
  "note_to_document example_note2 = example_document2"
  "note_to_document example_note3 = example_document3"
  "note_to_document (example_note_upd\<lparr>updated_at := 9\<rparr>) = example_document_upd"
  "note_to_document (duplicate_links_note\<lparr>updated_at := 9\<rparr>) = duplicate_links_document"
  "note_to_document accent_note = accent_document"
  by (simp_all add: note_to_document_def link_to_document_def example_note_def
      example_note2_def example_note3_def example_note_upd_def duplicate_links_note_def
      accent_note_def example_link_def example_link2_def example_document_def
      example_document2_def example_document3_def example_document_upd_def
      duplicate_links_document_def accent_document_def)

lemma example_ids:
  "d_id example_document = Some ''n1''" "d_id example_document2 = Some ''n2''"
  "d_id example_document3 = Some ''n3''" "d_id example_document_upd = Some ''n1''"
  "note_id example_note = ''n1''" "note_id example_note2 = ''n2''"
  "note_id example_note3 = ''n3''" "note_id example_note_upd = ''n1''"
  "note_id duplicate_links_note = ''n1''"
  by (simp_all add: example_document_def example_document2_def example_document3_def
      example_document_upd_def example_note_def example_note2_def example_note3_def
      example_note_upd_def duplicate_links_note_def)

lemma update_one_no_match:
  "\<forall>d \<in> set c. \<not> matches q d \<Longrightarrow> update_one c q upd = (c, 0)"
  by (induction c) simp_all

lemma update_one_first_match:
  "\<forall>x \<in> set pre. \<not> matches q x \<Longrightarrow> matches q d \<Longrightarrow>
   update_one (pre @ d # post) q upd = (pre @ apply_set upd d # post, 1)"
  by (induction pre) simp_all

lemma delete_one_no_match:
  "\<forall>d \<in> set c. \<not> matches q d \<Longrightarrow> delete_one c q = (c, 0)"
  by (induction c) simp_all

lemma delete_one_first_match:
  "\<forall>x \<in> set pre. \<not> matches q x \<Longrightarrow> matches q d \<Longrightarrow>
   delete_one (pre @ d # post) q = (pre @ post, 1)"
  by (induction pre) simp_all

lemma update_one_count:
  "snd (update_one c q upd) = (if \<exists>d \<in> set c. matches q d then 1 else 0)"
  by (induction c) (auto split: prod.splits)

lemma delete_one_count:
  "snd (delete_one c q) = (if \<exists>d \<in> set c. matches q d then 1 else 0)"
  by (induction c) (auto split: prod.splits)

lemma create_eq:
  "create gen c n =
     (let n' = (if note_id n = [] then n\<lparr>note_id := gen\<rparr> else n) in
      if \<exists>d \<in> set c. d_id d = Some (note_id n') then (c, Inl IOError)
      else (c @ [note_to_document n'], Inr n'))"
  by (auto simp: create_def insert_one_def Let_def list_ex_iff note_to_document_def)

lemma update_fail_iff:
  "(\<exists>e. snd (update now c n) = Inl e) \<longleftrightarrow> \<not> (\<exists>d \<in> set c. d_id d = Some (note_id n))"
  using update_one_count [of c "id_query (note_id n)" "note_to_document (n\<lparr>updated_at := now\<rparr>)"]
  by (auto simp: update_def Let_def matches_id_query split: prod.splits if_splits)

lemma update_fail_state:
  assumes "snd (update now c n) = Inl e"
  shows "e = ValueError \<and> fst (update now c n) = c"
proof -
  have nm: "\<forall>d \<in> set c. \<not> matches (id_query (note_id n)) d"
    using assms update_fail_iff [of now c n] by (auto simp: matches_id_query)
  show ?thesis
    using assms by (simp add: update_def Let_def update_one_no_match [OF nm])
qed

lemma update_success:
  assumes "\<forall>x \<in> set pre. d_id x \<noteq> Some (note_id n)" "d_id d = Some (note_id n)"
  shows "update now (pre @ d # post) n =
           (pre @ note_to_document (n\<lparr>updated_at := now\<rparr>) # post, Inr (n\<lparr>updated_at := now\<rparr>))"
proof -
  have a: "\<forall>x \<in> set pre. \<not> matches (id_query (note_id n)) x"
    using assms(1) by (simp add: matches_id_query)
  have b: "matches (id_query (note_id n)) d"
    using assms(2) by (simp add: matches_id_query)
  show ?thesis
    by (simp add: update_def Let_def update_one_first_match [OF a b] apply_set_note_to_document)
qed

lemma delete_fail_iff:
  "(\<exists>e. snd (delete c i) = Inl e) \<longleftrightarrow> \<not> (\<exists>d \<in> set c. d_id d = Some i)"
  using delete_one_count [of c "id_query i"]
  by (auto simp: delete_def matches_id_query split: prod.splits if_splits)

lemma delete_fail_state:
  assumes "snd (delete c i) = Inl e"
  shows "e = ValueError \<and> fst (delete c i) = c"
proof -
  have nm: "\<forall>d \<in> set c. \<not> matches (id_query i) d"
    using assms delete_fail_iff [of c i] by (auto simp: matches_id_query)
  show ?thesis
    using assms by (simp add: delete_def delete_one_no_match [OF nm])
qed

lemma delete_success:
  assumes "\<forall>x \<in> set pre. d_id x \<noteq> Some i" "d_id d = Some i"
  shows "delete (pre @ d # post) i = (pre @ post, Inr ())"
proof -
  have a: "\<forall>x \<in> set pre. \<not> matches (id_query i) x"
    using assms(1) by (simp add: matches_id_query)
  have b: "matches (id_query i) d"
    using assms(2) by (simp add: matches_id_query)
  show ?thesis
    by (simp add: delete_def delete_one_first_match [OF a b])
qed

text \<open>
  Claim C1, as stated, fails: a note with a fresh identifier whose title is already
  stored is inserted. Here the collection holds a note titled Alpha under \<open>n1\<close>, and
  a second note titled Alpha is created under \<open>n2\<close>.
\<close>

theorem create_duplicate_title_succeeds:
  "d_title example_document = Some (title example_note2)
   \<and> create ''g'' [example_document] example_note2
       = ([example_document, example_document2], Inr example_note2)"
proof -
  have "create ''g'' [example_document] example_note2
          = ([example_document] @ [note_to_document example_note2], Inr example_note2)"
    by (simp add: create_eq Let_def example_ids)
  then show ?thesis
    by (simp add: example_documents) (simp add: example_document_def example_note2_def)
qed

text \<open>
  Claim C1, amended. The note to store is the given one, with the generated identifier
  when its own is empty. If a document with that identifier is stored, create fails
  (the duplicate-key error of the server is raised as IOError) and the collection is
  unchanged; otherwise create succeeds and appends exactly one document, which holds
  every field of that note under its key, whatever its title.
\<close>

theorem create_conflict_on_id_only:
  "create gen c n =
     (let n' = (if note_id n = [] then n\<lparr>note_id := gen\<rparr> else n) in
      if \<exists>d \<in> set c. d_id d = Some (note_id n') then (c, Inl IOError)
      else (c @ [\<lparr> d_id = Some (note_id n'), d_title = Some (title n'),
                    d_content = Some (content n'),
                    d_note_type = Some (NoteType_value (note_type n')),
                    d_tags = Some (map tag_name (tags n')),
                    d_links = Some (map (\<lambda>l. \<lparr> ld_source_id = Some (source_id l),
                                                 ld_target_id = Some (target_id l),
                                                 ld_link_type = Some (LinkType_value (link_type l)),
                                                 ld_description = description l,
                                                 ld_created_at = Some (link_created_at l) \<rparr>)
                                    (links n')),
                    d_created_at = Some (created_at n'), d_updated_at = Some (updated_at n'),
                    d_metadata = Some (metadata n') \<rparr>],
            Inr n'))"
proof -
  have l: "link_to_document = (\<lambda>l. \<lparr> ld_source_id = Some (source_id l),
                                     ld_target_id = Some (target_id l),
                                     ld_link_type = Some (LinkType_value (link_type l)),
                                     ld_description = description l,
                                     ld_created_at = Some (link_created_at l) \<rparr>)"
    by (rule ext) (simp add: link_to_document_def)
  show ?thesis
    unfolding create_eq Let_def note_to_document_def l by (rule refl)
qed

theorem create_conflict_on_id_only_witness:
  "create ''g'' example_collection example_note2 = (example_collection, Inl IOError)
   \<and> create ''n3'' example_collection (example_note3\<lparr>note_id := []\<rparr>)
       = ([example_document, example_document2, example_document3], Inr example_note3)"
proof -
  have a: "create ''g'' example_collection example_note2 = (example_collection, Inl IOError)"
    using create_conflict_on_id_only [of "''g''" example_collection example_note2]
    by (simp add: example_collection_def example_ids)
  have n: "(example_note3\<lparr>note_id := []\<rparr>)\<lparr>note_id := ''n3''\<rparr> = example_note3"
    by (simp add: example_note3_def)
  have b: "create ''n3'' example_collection (example_note3\<lparr>note_id := []\<rparr>)
       = ([example_document, example_document2, example_document3], Inr example_note3)"
    using create_conflict_on_id_only [of "''n3''" example_collection "example_note3\<lparr>note_id := []\<rparr>"]
    by (simp add: n Let_def example_collection_def example_ids)
       (simp add: example_note3_def example_document3_def)
  from a b show ?thesis by simp
qed

text \<open>
  Claim C2. update fails exactly when no stored document has the note's identifier; the
  failure is the ValueError by which the code reports a missing note, and the collection
  is then unchanged. On success the first document with that identifier is replaced by
  a document that holds every field of the given note under its key, with the clock
  reading under \<open>updated_at\<close>; every other document is kept, and the note with the
  new \<open>updated_at\<close> is returned.
\<close>

theorem update_not_found_or_replaced:
  "((\<exists>e. snd (update now c n) = Inl e) \<longleftrightarrow> \<not> (\<exists>d \<in> set c. d_id d = Some (note_id n)))
   \<and> (\<forall>e. snd (update now c n) = Inl e \<longrightarrow> e = ValueError \<and> fst (update now c n) = c)
   \<and> (\<forall>pre d post.
        c = pre @ d # post \<and> (\<forall>x \<in> set pre. d_id x \<noteq> Some (note_id n))
          \<and> d_id d = Some (note_id n) \<longrightarrow>
        update now c n =
          (pre @ \<lparr> d_id = Some (note_id n), d_title = Some (title n),
                   d_content = Some (content n),
                   d_note_type = Some (NoteType_value (note_type n)),
                   d_tags = Some (map tag_name (tags n)),
                   d_links = Some (map (\<lambda>l. \<lparr> ld_source_id = Some (source_id l),
                                                ld_target_id = Some (target_id l),
                                                ld_link_type = Some (LinkType_value (link_type l)),
                                                ld_description = description l,
                                                ld_created_at = Some (link_created_at l) \<rparr>)
                                   (links n)),
                   d_created_at = Some (created_at n), d_updated_at = Some now,
                   d_metadata = Some (metadata n) \<rparr> # post,
           Inr (n\<lparr>updated_at := now\<rparr>)))"
proof -
  have l: "link_to_document = (\<lambda>l. \<lparr> ld_source_id = Some (source_id l),
                                     ld_target_id = Some (target_id l),
                                     ld_link_type = Some (LinkType_value (link_type l)),
                                     ld_description = description l,
                                     ld_created_at = Some (link_created_at l) \<rparr>)"
    by (rule ext) (simp add: link_to_document_def)
  have k: "note_to_document (n\<lparr>updated_at := now\<rparr>) =
     \<lparr> d_id = Some (note_id n), d_title = Some (title n), d_content = Some (content n),
       d_note_type = Some (NoteType_value (note_type n)),
       d_tags = Some (map tag_name (tags n)),
       d_links = Some (map (\<lambda>l. \<lparr> ld_source_id = Some (source_id l),
                                    ld_target_id = Some (target_id l),
                                    ld_link_type = Some (LinkType_value (link_type l)),
                                    ld_description = description l,
                                    ld_created_at = Some (link_created_at l) \<rparr>) (links n)),
       d_created_at = Some (created_at n), d_updated_at = Some now,
       d_metadata = Some (metadata n) \<rparr>"
    by (simp add: note_to_document_def l)
  show ?thesis
    using update_fail_iff [of now c n] update_fail_state [of now c n]
      update_success [of _ n _ now]
    unfolding k by blast
qed

theorem update_not_found_or_replaced_witness:
  "update 9 example_collection example_note_upd
     = ([example_document_upd, example_document2], Inr (example_note_upd\<lparr>updated_at := 9\<rparr>))
   \<and> update 9 [example_document] example_note2 = ([example_document], Inl ValueError)"
proof -
  let ?c = "[example_document]"
  have pre: "example_collection = [] @ example_document # [example_document2]
      \<and> (\<forall>x \<in> set []. d_id x \<noteq> Some (note_id example_note_upd))
      \<and> d_id example_document = Some (note_id example_note_upd)"
    by (simp add: example_collection_def example_ids)
  have "\<exists>doc. update 9 example_collection example_note_upd
          = ([] @ doc # [example_document2], Inr (example_note_upd\<lparr>updated_at := 9\<rparr>))
        \<and> doc = \<lparr> d_id = Some (note_id example_note_upd), d_title = Some (title example_note_upd),
                   d_content = Some (content example_note_upd),
                   d_note_type = Some (NoteType_value (note_type example_note_upd)),
                   d_tags = Some (map tag_name (tags example_note_upd)),
                   d_links = Some (map (\<lambda>l. \<lparr> ld_source_id = Some (source_id l),
                                                ld_target_id = Some (target_id l),
                                                ld_link_type = Some (LinkType_value (link_type l)),
                                                ld_description = description l,
                                                ld_created_at = Some (link_created_at l) \<rparr>)
                                   (links example_note_upd)),
                   d_created_at = Some (created_at example_note_upd), d_updated_at = Some 9,
                   d_metadata = Some (metadata example_note_upd) \<rparr>"
    using update_not_found_or_replaced [of 9 example_collection example_note_upd] pre by blast
  then obtain doc where u: "update 9 example_collection example_note_upd
          = ([] @ doc # [example_document2], Inr (example_note_upd\<lparr>updated_at := 9\<rparr>))"
    and d: "doc = \<lparr> d_id = Some (note_id example_note_upd), d_title = Some (title example_note_upd),
                   d_content = Some (content example_note_upd),
                   d_note_type = Some (NoteType_value (note_type example_note_upd)),
                   d_tags = Some (map tag_name (tags example_note_upd)),
                   d_links = Some (map (\<lambda>l. \<lparr> ld_source_id = Some (source_id l),
                                                ld_target_id = Some (target_id l),
                                                ld_link_type = Some (LinkType_value (link_type l)),
                                                ld_description = description l,
                                                ld_created_at = Some (link_created_at l) \<rparr>)
                                   (links example_note_upd)),
                   d_created_at = Some (created_at example_note_upd), d_updated_at = Some 9,
                   d_metadata = Some (metadata example_note_upd) \<rparr>"
    by blast
  have "doc = example_document_upd"
    unfolding d
    by (simp add: example_note_upd_def example_note_def example_link_def example_link2_def
        example_document_upd_def)
  with u have ok: "update 9 example_collection example_note_upd
     = ([example_document_upd, example_document2], Inr (example_note_upd\<lparr>updated_at := 9\<rparr>))"
    by simp
  have "\<exists>e. snd (update 9 ?c example_note2) = Inl e"
    using update_not_found_or_replaced [of 9 ?c example_note2] by (simp add: example_ids)
  then have "snd (update 9 ?c example_note2) = Inl ValueError \<and> fst (update 9 ?c example_note2) = ?c"
    using update_not_found_or_replaced [of 9 ?c example_note2] by blast
  then have "update 9 ?c example_note2 = (?c, Inl ValueError)"
    by (simp add: prod_eq_iff)
  with ok show ?thesis by simp
qed

text \<open>
  Claim C3. delete fails exactly when no stored document has the identifier; the failure
  is the ValueError by which the code reports a missing note, and the collection is then
  unchanged. On success the first document with that identifier is removed and every
  other document is kept, in place.
\<close>

theorem delete_not_found_or_removed:
  "((\<exists>e. snd (delete c i) = Inl e) \<longleftrightarrow> \<not> (\<exists>d \<in> set c. d_id d = Some i))
   \<and> (\<forall>e. snd (delete c i) = Inl e \<longrightarrow> e = ValueError \<and> fst (delete c i) = c)
   \<and> (\<forall>pre d post.
        c = pre @ d # post \<and> (\<forall>x \<in> set pre. d_id x \<noteq> Some i) \<and> d_id d = Some i \<longrightarrow>
        delete c i = (pre @ post, Inr ()))"
  using delete_fail_iff [of c i] delete_fail_state [of c i] delete_success [of _ i]
  by blast

theorem delete_not_found_or_removed_witness:
  "delete example_collection ''n1'' = ([example_document2], Inr ())
   \<and> delete example_collection ''n7'' = (example_collection, Inl ValueError)"
proof -
  have pre: "example_collection = [] @ example_document # [example_document2]
      \<and> (\<forall>x \<in> set []. d_id x \<noteq> Some ''n1'')
      \<and> d_id example_document = Some ''n1''"
    by (simp add: example_collection_def example_ids)
  have ok: "delete example_collection ''n1'' = ([] @ [example_document2], Inr ())"
    using delete_not_found_or_removed [of example_collection "''n1''"] pre by blast
  have "\<exists>e. snd (delete example_collection ''n7'') = Inl e"
    using delete_not_found_or_removed [of example_collection "''n7''"]
    by (simp add: example_collection_def example_ids)
  then have "snd (delete example_collection ''n7'') = Inl ValueError
             \<and> fst (delete example_collection ''n7'') = example_collection"
    using delete_not_found_or_removed [of example_collection "''n7''"] by blast
  then have "delete example_collection ''n7'' = (example_collection, Inl ValueError)"
    by (simp add: prod_eq_iff)
  with ok show ?thesis by simp
qed

subsection \<open>Search\<close>

lemma set_content_other: "set_content casefold kw q = Some q' \<Longrightarrow> k \<noteq> K_content \<Longrightarrow> q' k = q k"
  by (auto simp: set_content_def split: option.splits)

lemma set_title_other: "set_title casefold kw q = Some q' \<Longrightarrow> k \<noteq> K_title \<Longrightarrow> q' k = q k"
  by (auto simp: set_title_def split: option.splits)

lemma set_note_type_other: "k \<noteq> K_note_type \<Longrightarrow> set_note_type kw q k = q k"
  by (simp add: set_note_type_def split: option.splits note_type_arg.splits)

lemma set_tag_other: "k \<noteq> K_tags \<Longrightarrow> set_tag kw q k = q k"
  by (simp add: set_tag_def split: option.splits)

lemma set_tags_other: "k \<noteq> K_tags \<Longrightarrow> set_tags kw q k = q k"
  by (simp add: set_tags_def split: option.splits tags_arg.splits)

lemma set_linked_to_other: "k \<noteq> K_links_target_id \<Longrightarrow> set_linked_to kw q k = q k"
  by (simp add: set_linked_to_def split: option.splits)

lemma set_linked_from_other: "k \<noteq> K_links_target_id \<Longrightarrow> set_linked_from kw q k = q k"
  by (simp add: set_linked_from_def split: option.splits)

lemma set_created_after_other: "k \<noteq> K_created_at \<Longrightarrow> set_created_after kw q k = q k"
  by (simp add: set_created_after_def split: option.splits)

lemma set_created_before_other: "k \<noteq> K_created_at \<Longrightarrow> set_created_before kw q k = q k"
  by (simp add: set_created_before_def split: option.splits)

lemma set_updated_after_other: "k \<noteq> K_updated_at \<Longrightarrow> set_updated_after kw q k = q k"
  by (simp add: set_updated_after_def split: option.splits)

lemma set_updated_before_other: "k \<noteq> K_updated_at \<Longrightarrow> set_updated_before kw q k = q k"
  by (simp add: set_updated_before_def split: option.splits)

lemmas set_other = set_note_type_other set_tag_other set_tags_other set_linked_to_other
  set_linked_from_other set_created_after_other set_created_before_other
  set_updated_after_other set_updated_before_other

lemma search_query_cases:
  assumes "search_query casefold kw = Some q"
  obtains q1 q2 where "set_content casefold kw Map.empty = Some q1" "set_title casefold kw q1 = Some q2"
    "q = set_updated_before kw (set_updated_after kw
                      (set_created_before kw (set_created_after kw
                        (set_linked_from kw (set_linked_to kw
                          (set_tags kw (set_tag kw (set_note_type kw q2))))))))"
  using assms by (auto simp: search_query_def split: option.splits)

lemma tags_query:
  assumes "search_query casefold kw = Some q" "kw_tags kw = Some (TagSequence ts)"
  shows "q K_tags = Some (Operators (no_operators\<lparr>op_in := Some (map S ts)\<rparr>))"
proof -
  obtain q2 where q: "q = set_updated_before kw (set_updated_after kw
                      (set_created_before kw (set_created_after kw
                        (set_linked_from kw (set_linked_to kw
                          (set_tags kw (set_tag kw (set_note_type kw q2))))))))"
    using assms(1) by (auto elim: search_query_cases)
  show ?thesis
    unfolding q by (simp add: set_other) (simp add: set_tags_def assms(2))
qed

lemma matches_key: "matches q d \<Longrightarrow> key_holds q d k"
  by (cases k) (simp_all add: matches_def all_keys_def)

lemma matched_has_some_tag:
  assumes "search_query casefold kw = Some q" "kw_tags kw = Some (TagSequence ts)" "matches q d"
  shows "\<exists>t \<in> set ts. t \<in> set (get_or (d_tags d) [])"
  using matches_key [OF assms(3), of K_tags] tags_query [OF assms(1,2)]
  by (auto simp: key_holds_def no_operators_def list_ex_iff)

lemma map_result_Inr_set:
  "map_result f xs = Inr ys \<Longrightarrow> y \<in> set ys \<Longrightarrow> \<exists>x \<in> set xs. f x = Inr y"
  by (induction xs arbitrary: ys) (auto split: sum.splits)

lemma document_to_note_tags:
  "document_to_note now d = Inr n \<Longrightarrow> map tag_name (tags n) = get_or (d_tags d) []"
  by (auto simp: document_to_note_def Let_def comp_def split: sum.splits)

lemma parse_literal:
  "\<forall>ch \<in> set s. ch \<notin> set metachars \<Longrightarrow> parse_regex s = Some (map Lit s)"
  by (induction s) (auto simp: parse_atom_def metachars_def)

lemma match_here_literal:
  "match_here (Some casefold) (map Lit p) s \<longleftrightarrow> prefix (map casefold p) (map casefold s)"
  by (induction p arbitrary: s; case_tac s) auto

lemma regex_search_literal:
  "regex_search (Some casefold) (map Lit p) s \<longleftrightarrow> sublist (map casefold p) (map casefold s)"
  by (induction s) (auto simp: match_here_literal sublist_Cons_right)


lemmas set_defs = set_content_def set_title_def set_note_type_def set_tag_def set_tags_def
  set_linked_to_def set_linked_from_def set_created_after_def set_created_before_def
  set_updated_after_def set_updated_before_def

lemma created_only_query:
  "search_query casefold (no_kwargs\<lparr>kw_created_after := lo, kw_created_before := hi\<rparr>) =
     Some (set_created_before (no_kwargs\<lparr>kw_created_after := lo, kw_created_before := hi\<rparr>)
            (set_created_after (no_kwargs\<lparr>kw_created_after := lo, kw_created_before := hi\<rparr>) Map.empty))"
  by (simp add: search_query_def set_content_def set_title_def set_note_type_def set_tag_def
      set_tags_def set_linked_to_def set_linked_from_def set_updated_after_def
      set_updated_before_def no_kwargs_def)

lemma created_only_matches:
  "matches (set_created_before (no_kwargs\<lparr>kw_created_after := lo, kw_created_before := hi\<rparr>)
            (set_created_after (no_kwargs\<lparr>kw_created_after := lo, kw_created_before := hi\<rparr>) Map.empty)) d
   = within lo hi (d_created_at d)"
  by (cases lo; cases hi; cases "d_created_at d")
     (simp_all add: set_created_before_def set_created_after_def no_kwargs_def matches_def
        all_keys_def key_holds_def operators_at_def no_operators_def within_def opt_list_def)

lemma updated_only_query:
  "search_query casefold (no_kwargs\<lparr>kw_updated_after := lo, kw_updated_before := hi\<rparr>) =
     Some (set_updated_before (no_kwargs\<lparr>kw_updated_after := lo, kw_updated_before := hi\<rparr>)
            (set_updated_after (no_kwargs\<lparr>kw_updated_after := lo, kw_updated_before := hi\<rparr>) Map.empty))"
  by (simp add: search_query_def set_content_def set_title_def set_note_type_def set_tag_def
      set_tags_def set_linked_to_def set_linked_from_def set_created_after_def
      set_created_before_def no_kwargs_def)

lemma updated_only_matches:
  "matches (set_updated_before (no_kwargs\<lparr>kw_updated_after := lo, kw_updated_before := hi\<rparr>)
            (set_updated_after (no_kwargs\<lparr>kw_updated_after := lo, kw_updated_before := hi\<rparr>) Map.empty)) d
   = within lo hi (d_updated_at d)"
  by (cases lo; cases hi; cases "d_updated_at d")
     (simp_all add: set_updated_before_def set_updated_after_def no_kwargs_def matches_def
        all_keys_def key_holds_def operators_at_def no_operators_def within_def opt_list_def)

lemma find_docs_eq: "(\<And>d. matches q d = P d) \<Longrightarrow> find_docs c q = filter P c"
  by (simp add: find_docs_def cong: filter_cong)

text \<open>
  Claim C7. Date-range filtering is inclusive at both ends. A search by creation bounds
  alone returns exactly the stored notes whose \<open>created_at\<close> is within the range, and
  a search by update bounds alone those whose \<open>updated_at\<close> is; a timestamp equal to
  the start bound or to the end bound is within the range, and an absent bound leaves
  its side unconstrained.
\<close>

theorem date_range_inclusive:
  "search casefold now c (no_kwargs\<lparr>kw_created_after := lo, kw_created_before := hi\<rparr>)
     = Some (map_result (document_to_note now) (filter (\<lambda>d. within lo hi (d_created_at d)) c))
   \<and> search casefold now c (no_kwargs\<lparr>kw_updated_after := lo, kw_updated_before := hi\<rparr>)
     = Some (map_result (document_to_note now) (filter (\<lambda>d. within lo hi (d_updated_at d)) c))
   \<and> within (Some t) None (Some t) \<and> within None (Some t) (Some t)
   \<and> within (Some t) (Some t) (Some t) \<and> within None None v
   \<and> (within (Some a) (Some b) (Some t) \<longleftrightarrow> a \<le> t \<and> t \<le> b)"
  by (simp add: search_def created_only_query updated_only_query
      find_docs_eq [OF created_only_matches] find_docs_eq [OF updated_only_matches] within_def)

theorem date_range_inclusive_witness:
  "search latin1_casefold 0 example_collection (no_kwargs\<lparr>kw_created_after := Some 3, kw_created_before := Some 6\<rparr>)
     = Some (Inr [example_note, example_note2])
   \<and> search latin1_casefold 0 example_collection (no_kwargs\<lparr>kw_updated_after := Some 5, kw_updated_before := None\<rparr>)
     = Some (Inr [example_note2])"
proof -
  have a: "Some (map_result (document_to_note 0)
             (filter (\<lambda>d. within (Some 3) (Some 6) (d_created_at d)) example_collection))
           = Some (Inr [example_note, example_note2])"
    by code_simp
  have b: "Some (map_result (document_to_note 0)
             (filter (\<lambda>d. within (Some 5) None (d_updated_at d)) example_collection))
           = Some (Inr [example_note2])"
    by code_simp
  show ?thesis
    using date_range_inclusive [where casefold = latin1_casefold and now = 0 and c = example_collection and lo = "Some 3" and hi = "Some 6"]
      date_range_inclusive [where casefold = latin1_casefold and now = 0 and c = example_collection and lo = "Some 5" and hi = None]
      a b
    by (simp only:)
qed

lemma title_only_query:
  "parse_regex s = Some r \<Longrightarrow>
   search_query casefold (no_kwargs\<lparr>kw_title := Some s\<rparr>) =
     Some [K_title \<mapsto> Operators (no_operators\<lparr>op_regex := Some (Compiled r (Some casefold))\<rparr>)]"
  by (simp add: search_query_def set_defs no_kwargs_def regex_cond_def compile_def)

lemma content_only_query:
  "parse_regex s = Some r \<Longrightarrow>
   search_query casefold (no_kwargs\<lparr>kw_content := Some s\<rparr>) =
     Some [K_content \<mapsto> Operators (no_operators\<lparr>op_regex := Some (Compiled r (Some casefold))\<rparr>)]"
  by (simp add: search_query_def set_defs no_kwargs_def regex_cond_def compile_def)

lemma title_only_matches:
  "matches [K_title \<mapsto> Operators (no_operators\<lparr>op_regex := Some (Compiled r (Some casefold))\<rparr>)] d
   = (case d_title d of None \<Rightarrow> False | Some t \<Rightarrow> regex_search (Some casefold) r t)"
  by (cases "d_title d")
     (simp_all add: matches_def all_keys_def key_holds_def no_operators_def opt_list_def)

lemma content_only_matches:
  "matches [K_content \<mapsto> Operators (no_operators\<lparr>op_regex := Some (Compiled r (Some casefold))\<rparr>)] d
   = (case d_content d of None \<Rightarrow> False | Some t \<Rightarrow> regex_search (Some casefold) r t)"
  by (cases "d_content d")
     (simp_all add: matches_def all_keys_def key_holds_def no_operators_def opt_list_def)

text \<open>
  Claim C6, as stated, fails: the criterion is handed to the server as a regular
  expression. The pattern \<open>A.pha\<close> selects the note titled Alpha, whose title does not
  contain the five characters of the criterion.
\<close>

theorem search_title_is_pattern:
  "search latin1_casefold 0 [example_document2] (no_kwargs\<lparr>kw_title := Some ''A.pha''\<rparr>)
     = Some (Inr [example_note2])
   \<and> \<not> contains_ignoring_case latin1_casefold ''A.pha'' (title example_note2)"
  by code_simp

text \<open>
  Claim C6, amended. For every criterion string free of regular-expression
  metacharacters, a search by title alone returns exactly the stored notes whose title
  contains the string ignoring case, and a search by content alone those whose content
  does; ignoring case is meant as the engine that evaluates the pattern folds case,
  whichever characters it folds. (A criterion with metacharacters is a pattern, not a
  literal.)
\<close>

theorem search_literal_substring:
  assumes "\<forall>ch \<in> set s. ch \<notin> set metachars"
  shows "search casefold now c (no_kwargs\<lparr>kw_title := Some s\<rparr>)
     = Some (map_result (document_to_note now)
         (filter (\<lambda>d. case d_title d of None \<Rightarrow> False | Some t \<Rightarrow> contains_ignoring_case casefold s t) c))
   \<and> search casefold now c (no_kwargs\<lparr>kw_content := Some s\<rparr>)
     = Some (map_result (document_to_note now)
         (filter (\<lambda>d. case d_content d of None \<Rightarrow> False | Some t \<Rightarrow> contains_ignoring_case casefold s t) c))"
proof -
  have p: "parse_regex s = Some (map Lit s)"
    using assms by (rule parse_literal)
  have t: "find_docs c [K_title \<mapsto> Operators (no_operators\<lparr>op_regex := Some (Compiled (map Lit s) (Some casefold))\<rparr>)]
      = filter (\<lambda>d. case d_title d of None \<Rightarrow> False | Some t \<Rightarrow> contains_ignoring_case casefold s t) c"
    by (rule find_docs_eq)
       (simp add: title_only_matches regex_search_literal contains_ignoring_case_def
          split: option.splits)
  have b: "find_docs c [K_content \<mapsto> Operators (no_operators\<lparr>op_regex := Some (Compiled (map Lit s) (Some casefold))\<rparr>)]
      = filter (\<lambda>d. case d_content d of None \<Rightarrow> False | Some t \<Rightarrow> contains_ignoring_case casefold s t) c"
    by (rule find_docs_eq)
       (simp add: content_only_matches regex_search_literal contains_ignoring_case_def
          split: option.splits)
  show ?thesis
    by (simp add: search_def title_only_query [OF p] content_only_query [OF p] t b)
qed

theorem search_literal_substring_witness:
  "search latin1_casefold 0 example_collection (no_kwargs\<lparr>kw_title := Some ''aLPH''\<rparr>)
     = Some (Inr [example_note, example_note2])
   \<and> search latin1_casefold 0 example_collection (no_kwargs\<lparr>kw_content := Some ''SECOND''\<rparr>)
     = Some (Inr [example_note2])
   \<and> search latin1_casefold 0 [example_document, accent_document]
        (no_kwargs\<lparr>kw_title := Some [CHR 0xE9, CHR ''T'']\<rparr>)
     = Some (Inr [accent_note])"
proof -
  have h1: "\<forall>ch \<in> set ''aLPH''. ch \<notin> set metachars" by code_simp
  have h2: "\<forall>ch \<in> set ''SECOND''. ch \<notin> set metachars" by code_simp
  have h3: "\<forall>ch \<in> set [CHR 0xE9, CHR ''T'']. ch \<notin> set metachars" by code_simp
  have a: "Some (map_result (document_to_note 0)
             (filter (\<lambda>d. case d_title d of None \<Rightarrow> False
                          | Some t \<Rightarrow> contains_ignoring_case latin1_casefold ''aLPH'' t)
                example_collection))
           = Some (Inr [example_note, example_note2])"
    by code_simp
  have b: "Some (map_result (document_to_note 0)
             (filter (\<lambda>d. case d_content d of None \<Rightarrow> False
                          | Some t \<Rightarrow> contains_ignoring_case latin1_casefold ''SECOND'' t)
                example_collection))
           = Some (Inr [example_note2])"
    by code_simp
  have c: "Some (map_result (document_to_note 0)
             (filter (\<lambda>d. case d_title d of None \<Rightarrow> False
                          | Some t \<Rightarrow> contains_ignoring_case latin1_casefold [CHR 0xE9, CHR ''T''] t)
                [example_document, accent_document]))
           = Some (Inr [accent_note])"
    by code_simp
  show ?thesis
    using search_literal_substring [OF h1, where casefold = latin1_casefold and now = 0
        and c = example_collection]
      search_literal_substring [OF h2, where casefold = latin1_casefold and now = 0
        and c = example_collection]
      search_literal_substring [OF h3, where casefold = latin1_casefold and now = 0
        and c = "[example_document, accent_document]"] a b c
    by (simp only:)
qed

text \<open>
  Claim C5, as stated, fails: the tag list becomes an \<^verbatim>\<open>$in\<close> filter, which a
  document passes with any one of the tags. Asked for the tags \<open>a\<close> and \<open>b\<close>, the
  search returns the second note, which carries \<open>a\<close> only.
\<close>

theorem search_tags_not_all:
  "search latin1_casefold 0 example_collection (no_kwargs\<lparr>kw_tags := Some (TagSequence [''a'', ''b''])\<rparr>)
     = Some (Inr [example_note, example_note2])
   \<and> ''b'' \<notin> tag_name ` set (tags example_note2)"
  by code_simp

text \<open>
  Claim C5, amended. When a search is given a list of tags, every note it returns
  carries at least one of the requested tags.
\<close>

theorem search_tags_any:
  assumes "search casefold now c kw = Some (Inr ns)" "kw_tags kw = Some (TagSequence ts)" "n \<in> set ns"
  shows "\<exists>t \<in> set ts. t \<in> tag_name ` set (tags n)"
proof -
  obtain q where q: "search_query casefold kw = Some q"
    and r: "map_result (document_to_note now) (find_docs c q) = Inr ns"
    using assms(1) by (auto simp: search_def split: option.splits)
  obtain d where d: "d \<in> set (find_docs c q)" "document_to_note now d = Inr n"
    using map_result_Inr_set [OF r assms(3)] by blast
  have "matches q d" using d(1) by (simp add: find_docs_def)
  then obtain t where "t \<in> set ts" "t \<in> set (get_or (d_tags d) [])"
    using matched_has_some_tag [OF q assms(2)] by blast
  moreover have "set (get_or (d_tags d) []) = tag_name ` set (tags n)"
    using document_to_note_tags [OF d(2)] by (metis set_map)
  ultimately show ?thesis by blast
qed

theorem search_tags_any_witness:
  "\<exists>t \<in> set [''b'', ''z'']. t \<in> tag_name ` set (tags example_note)"
proof -
  have a: "search latin1_casefold 0 example_collection (no_kwargs\<lparr>kw_tags := Some (TagSequence [''b'', ''z''])\<rparr>)
             = Some (Inr [example_note])"
    by code_simp
  have b: "kw_tags (no_kwargs\<lparr>kw_tags := Some (TagSequence [''b'', ''z''])\<rparr>)
             = Some (TagSequence [''b'', ''z''])"
    by simp
  have c: "example_note \<in> set [example_note]" by simp
  show ?thesis by (rule search_tags_any [OF a b c])
qed

subsection \<open>States of the repository\<close>







lemma stored_ok_create:
  assumes "stored_ok P c" "P n" "\<And>m g. P m \<Longrightarrow> P (m\<lparr>note_id := g\<rparr>)"
  shows "stored_ok P (fst (create gen c n))"
proof -
  let ?n = "if note_id n = [] then n\<lparr>note_id := gen\<rparr> else n"
  have p: "P ?n" using assms(2,3) by simp
  have id: "d_id (note_to_document ?n) = Some (note_id ?n)" by (simp add: note_to_document_def)
  show ?thesis
  proof (cases "\<exists>d \<in> set c. d_id d = Some (note_id ?n)")
    case True
    then show ?thesis using assms(1) by (simp add: create_eq Let_def)
  next
    case False
    then have f: "fst (create gen c n) = c @ [note_to_document ?n]"
      by (simp add: create_eq Let_def)
    have fresh: "Some (note_id ?n) \<notin> d_id ` set c" using False by force
    have "distinct (map d_id (c @ [note_to_document ?n]))"
      using assms(1) fresh id by (simp add: stored_ok_def)
    moreover have "\<forall>d \<in> set (c @ [note_to_document ?n]). \<exists>m. P m \<and> d = note_to_document m"
      using assms(1) p by (auto simp: stored_ok_def)
    ultimately show ?thesis
      unfolding f stored_ok_def by blast
  qed
qed

lemma update_one_ids:
  "d_id upd = Some i \<Longrightarrow> map d_id (fst (update_one c (id_query i) upd)) = map d_id c"
  by (induction c) (auto simp: matches_id_query apply_set_def split: prod.splits)

lemma update_one_set:
  "(\<And>d. apply_set upd d = upd) \<Longrightarrow> set (fst (update_one c q upd)) \<subseteq> insert upd (set c)"
  by (induction c) (auto split: prod.splits)

lemma stored_ok_update:
  assumes "stored_ok P c" "P n" "\<And>m t. P m \<Longrightarrow> P (m\<lparr>updated_at := t\<rparr>)"
  shows "stored_ok P (fst (update now c n))"
proof -
  let ?n = "n\<lparr>updated_at := now\<rparr>"
  have f: "fst (update now c n) = fst (update_one c (id_query (note_id n)) (note_to_document ?n))"
    by (simp add: update_def Let_def split: prod.splits)
  have p: "P ?n" using assms(2,3) by simp
  have ids: "map d_id (fst (update now c n)) = map d_id c"
    unfolding f by (rule update_one_ids) (simp add: note_to_document_def)
  have sub: "set (fst (update now c n)) \<subseteq> insert (note_to_document ?n) (set c)"
    unfolding f by (rule update_one_set) (rule apply_set_note_to_document)
  show ?thesis
    using assms(1) p ids sub unfolding stored_ok_def by (metis insert_iff subsetD)
qed

lemma delete_one_ids:
  "distinct (map d_id c) \<Longrightarrow> distinct (map d_id (fst (delete_one c q)))
     \<and> set (fst (delete_one c q)) \<subseteq> set c"
  by (induction c) (auto split: prod.splits)

lemma stored_ok_delete:
  assumes "stored_ok P c"
  shows "stored_ok P (fst (delete c i))"
proof -
  have f: "fst (delete c i) = fst (delete_one c (id_query i))"
    by (simp add: delete_def split: prod.splits)
  show ?thesis
    using assms delete_one_ids [of c "id_query i"] unfolding stored_ok_def f by blast
qed

lemma reachable_stored_ok:
  assumes "reachable P c" "\<And>m g. P m \<Longrightarrow> P (m\<lparr>note_id := g\<rparr>)"
    "\<And>m t. P m \<Longrightarrow> P (m\<lparr>updated_at := t\<rparr>)"
  shows "stored_ok P c"
  using assms(1)
proof (induction rule: reachable.induct)
  case initial
  then show ?case by (simp add: stored_ok_def)
next
  case (by_create c n gen)
  then show ?case using assms(2) by (simp add: stored_ok_create)
next
  case (by_update c n now)
  then show ?case using assms(3) by (simp add: stored_ok_update)
next
  case (by_delete c i)
  then show ?case by (simp add: stored_ok_delete)
qed

lemma reachable_mono: "reachable P c \<Longrightarrow> reachable any_note c"
  by (induction rule: reachable.induct) (auto intro: reachable.intros simp: any_note_def)

text \<open>
  Every state of the repository has pairwise different identifiers and holds only
  documents that read back without error.
\<close>

lemma reachable_decodable:
  assumes "reachable P c"
  shows "distinct (map d_id c) \<and> (\<forall>d \<in> set c. \<exists>n. document_to_note now d = Inr n)"
proof -
  have "stored_ok any_note c"
    by (rule reachable_stored_ok [OF reachable_mono [OF assms]]) (simp_all add: any_note_def)
  then show ?thesis
    by (auto simp: stored_ok_def document_to_note_of_note)
qed

text \<open>The example collections are states of the repository.\<close>

lemma example_reachable:
  assumes "P example_note" "P example_note2" "P example_note3" "P example_note_upd"
  shows "reachable P [example_document]" and "reachable P example_collection"
    and "reachable P linked_collection"
proof -
  have c1: "fst (create ''g'' [] example_note) = [example_document]"
    by (simp add: create_eq Let_def example_ids example_documents)
  have c2: "fst (create ''g'' [example_document] example_note2) = example_collection"
    by (simp add: create_eq Let_def example_ids example_documents example_collection_def)
  have c3: "fst (create ''g'' example_collection example_note3)
              = [example_document, example_document2, example_document3]"
    by (simp add: create_eq Let_def example_ids example_documents example_collection_def)
  have u: "fst (update 9 [example_document, example_document2, example_document3] example_note_upd)
              = linked_collection"
    using update_success [where pre = "[]" and n = example_note_upd and d = example_document
        and now = 9 and post = "[example_document2, example_document3]"]
    by (simp add: example_ids example_documents linked_collection_def)
  show r1: "reachable P [example_document]"
    using by_create [where P = P and c = "[]" and n = example_note and gen = "''g''",
        OF initial assms(1)] c1 by simp
  show r2: "reachable P example_collection"
    using by_create [where gen = "''g''", OF r1 assms(2)] c2 by simp
  have r3: "reachable P [example_document, example_document2, example_document3]"
    using by_create [where gen = "''g''", OF r2 assms(3)] c3 by simp
  show "reachable P linked_collection"
    using by_update [where now = 9, OF r3 assms(4)] u by simp
qed




subsection \<open>Linked notes\<close>

lemma find_one_Some_iff:
  "find_one c q = Some d \<longleftrightarrow>
     (\<exists>pre post. c = pre @ d # post \<and> matches q d \<and> (\<forall>x \<in> set pre. \<not> matches q x))"
proof
  assume "find_one c q = Some d"
  then obtain ds where f: "filter (matches q) c = d # ds"
    by (auto simp: find_one_def find_docs_def split: list.splits)
  then show "\<exists>pre post. c = pre @ d # post \<and> matches q d \<and> (\<forall>x \<in> set pre. \<not> matches q x)"
    by (auto simp: filter_eq_Cons_iff)
next
  assume "\<exists>pre post. c = pre @ d # post \<and> matches q d \<and> (\<forall>x \<in> set pre. \<not> matches q x)"
  then show "find_one c q = Some d"
    by (auto simp: find_one_def find_docs_def split: list.splits)
qed

lemma find_one_None_iff: "find_one c q = None \<longleftrightarrow> (\<forall>d \<in> set c. \<not> matches q d)"
proof -
  have "find_one c q = None \<longleftrightarrow> filter (matches q) c = []"
    by (simp add: find_one_def find_docs_def split: list.splits)
  then show ?thesis by (simp add: filter_empty_conv)
qed

lemma find_one_id_distinct:
  assumes "distinct (map d_id c)"
  shows "find_one c (id_query j) = Some d \<longleftrightarrow> d \<in> set c \<and> d_id d = Some j"
proof
  assume "find_one c (id_query j) = Some d"
  then show "d \<in> set c \<and> d_id d = Some j"
    by (auto simp: find_one_Some_iff matches_id_query)
next
  assume a: "d \<in> set c \<and> d_id d = Some j"
  then have "find_one c (id_query j) \<noteq> None"
    by (auto simp: find_one_None_iff matches_id_query)
  then obtain d' where d': "find_one c (id_query j) = Some d'" by blast
  then have "d' \<in> set c \<and> d_id d' = Some j"
    by (auto simp: find_one_Some_iff matches_id_query)
  with a assms have "d' = d"
    by (metis distinct_map inj_onD)
  with d' show "find_one c (id_query j) = Some d" by simp
qed

lemma get_Some_iff:
  "get now c j = Inr (Some t) \<longleftrightarrow>
     (\<exists>d. find_one c (id_query j) = Some d \<and> document_to_note now d = Inr t)"
  by (auto simp: get_def split: option.splits sum.splits)

lemma document_to_note_id: "document_to_note now d = Inr t \<Longrightarrow> note_id t = str_of (d_id d)"
  by (auto simp: document_to_note_def Let_def split: sum.splits)

lemma get_note_id: "get now c j = Inr (Some t) \<Longrightarrow> note_id t = j"
  by (auto simp: get_Some_iff find_one_Some_iff matches_id_query str_of_def
      dest!: document_to_note_id)

lemma get_total:
  assumes "\<forall>d \<in> set c. \<exists>n. document_to_note now d = Inr n"
  shows "\<exists>r. get now c j = Inr r"
proof (cases "find_one c (id_query j)")
  case None
  then show ?thesis by (simp add: get_def)
next
  case (Some d)
  then have "d \<in> set c" by (auto simp: find_one_Some_iff)
  with assms obtain n where "document_to_note now d = Inr n" by blast
  with Some show ?thesis by (simp add: get_def)
qed

lemma consistent_update:
  assumes "consistent now c res" "get now c k = Inr (Some t)"
  shows "consistent now c (AList.update k t res)"
    and "fst ` set (AList.update k t res) = insert k (fst ` set res)"
proof -
  have d: "distinct (map fst (AList.update k t res))"
    using assms(1) by (simp add: consistent_def distinct_update)
  have "\<And>k' v. (k', v) \<in> set (AList.update k t res) \<Longrightarrow> get now c k' = Inr (Some v)"
  proof -
    fix k' v assume "(k', v) \<in> set (AList.update k t res)"
    then have "map_of (AList.update k t res) k' = Some v"
      using d by simp
    then have "((map_of res)(k \<mapsto> t)) k' = Some v"
      by (simp add: update_conv')
    then show "get now c k' = Inr (Some v)"
      using assms by (auto simp: consistent_def split: if_splits dest: map_of_SomeD)
  qed
  with d show "consistent now c (AList.update k t res)"
    by (simp add: consistent_def)
  show "fst ` set (AList.update k t res) = insert k (fst ` set res)"
    by (simp add: dom_update)
qed

lemma outgoing_loop_result:
  assumes tot: "\<And>j. \<exists>r. get now c j = Inr r"
  shows "consistent now c res \<Longrightarrow>
     \<exists>res'. outgoing_loop now c ls res = Inr res' \<and> consistent now c res'
       \<and> fst ` set res' = fst ` set res
            \<union> {k. \<exists>l \<in> set ls. target_id l = k \<and> (\<exists>t. get now c k = Inr (Some t))}"
proof (induction ls arbitrary: res)
  case Nil
  then show ?case by simp
next
  case (Cons l ls)
  obtain r where r: "get now c (target_id l) = Inr r" using tot by blast
  show ?case
  proof (cases r)
    case None
    with r Cons.IH [OF Cons.prems] show ?thesis by auto
  next
    case (Some t)
    have g: "get now c (target_id l) = Inr (Some t)" using r Some by simp
    then have id: "note_id t = target_id l" by (rule get_note_id)
    have c1: "consistent now c (AList.update (target_id l) t res)"
      and d1: "fst ` set (AList.update (target_id l) t res) = insert (target_id l) (fst ` set res)"
      using consistent_update [OF Cons.prems g] by simp_all
    from Cons.IH [OF c1] obtain res' where
      "outgoing_loop now c ls (AList.update (target_id l) t res) = Inr res'"
      "consistent now c res'"
      "fst ` set res' = fst ` set (AList.update (target_id l) t res)
            \<union> {k. \<exists>l \<in> set ls. target_id l = k \<and> (\<exists>t. get now c k = Inr (Some t))}"
      by blast
    then show ?thesis
      using g id d1 by auto
  qed
qed

lemma consistent_values:
  assumes "consistent now c res"
  shows "distinct (map snd res)"
    and "set (map snd res) = {t. \<exists>k \<in> fst ` set res. get now c k = Inr (Some t)}"
proof -
  have kv: "\<And>e. e \<in> set res \<Longrightarrow> get now c (fst e) = Inr (Some (snd e))"
    using assms by (auto simp: consistent_def)
  then have ids: "\<And>e. e \<in> set res \<Longrightarrow> note_id (snd e) = fst e"
    by (auto dest: get_note_id)
  have eq: "map (note_id \<circ> snd) res = map fst res"
    by (rule map_cong [OF refl]) (simp add: ids)
  have "distinct (map fst res)" using assms by (simp add: consistent_def)
  then have "distinct (map (note_id \<circ> snd) res)" by (simp only: eq)
  then have "distinct (map note_id (map snd res))" by (simp only: map_map)
  then show "distinct (map snd res)" using distinct_map [of note_id "map snd res"] by blast
  show "set (map snd res) = {t. \<exists>k \<in> fst ` set res. get now c k = Inr (Some t)}"
    using kv by force
qed

lemma outgoing_notes_by_get:
  assumes "\<forall>d \<in> set c. \<exists>n. document_to_note now d = Inr n"
  shows "\<exists>ns. find_linked_notes now c i ''outgoing'' = Inr ns \<and> distinct ns
     \<and> set ns = {t. \<exists>src l. get now c i = Inr (Some src) \<and> l \<in> set (links src)
                     \<and> get now c (target_id l) = Inr (Some t)}"
proof -
  have tot: "\<And>j. \<exists>r. get now c j = Inr r" using get_total [OF assms] by blast
  have c0: "consistent now c []" by (simp add: consistent_def)
  obtain r where r: "get now c i = Inr r" using tot by blast
  show ?thesis
  proof (cases r)
    case None
    then show ?thesis using r
      by (simp add: find_linked_notes_def outgoing_part_def)
  next
    case (Some src)
    obtain res' where l: "outgoing_loop now c (links src) [] = Inr res'"
      and cr: "consistent now c res'"
      and ks: "fst ` set res' = fst ` set ([] :: results)
            \<union> {k. \<exists>l \<in> set (links src). target_id l = k \<and> (\<exists>t. get now c k = Inr (Some t))}"
      using outgoing_loop_result [OF tot c0, of "links src"] by blast
    have f: "find_linked_notes now c i ''outgoing'' = Inr (map snd res')"
      using r Some l by (simp add: find_linked_notes_def outgoing_part_def)
    have "set (map snd res') = {t. \<exists>l \<in> set (links src). get now c (target_id l) = Inr (Some t)}"
      unfolding consistent_values(2) [OF cr] ks by auto
    then show ?thesis
      using f consistent_values(1) [OF cr] r Some by auto
  qed
qed

lemma get_Some_distinct:
  assumes "distinct (map d_id c)"
  shows "get now c k = Inr (Some t) \<longleftrightarrow>
           (\<exists>d \<in> set c. d_id d = Some k \<and> document_to_note now d = Inr t)"
  using find_one_id_distinct [OF assms, of k] by (auto simp: get_Some_iff)

text \<open>
  Claim C9. In a collection whose documents have pairwise different identifiers and all
  read back without error (as in every state of the repository), the outgoing linked
  notes of an identifier are returned without error, each at most once, and they are
  exactly the stored notes whose identifier is the target of some link of the note
  stored under the given identifier. A link whose target is not stored adds nothing.
\<close>

theorem find_linked_notes_outgoing:
  assumes "\<forall>d \<in> set c. \<exists>n. document_to_note now d = Inr n" "distinct (map d_id c)"
  shows "\<exists>ns. find_linked_notes now c i ''outgoing'' = Inr ns \<and> distinct ns
     \<and> set ns = {t. \<exists>src l d. get now c i = Inr (Some src) \<and> l \<in> set (links src)
                     \<and> d \<in> set c \<and> d_id d = Some (target_id l)
                     \<and> document_to_note now d = Inr t}"
proof -
  obtain ns where ns: "find_linked_notes now c i ''outgoing'' = Inr ns" "distinct ns"
    "set ns = {t. \<exists>src l. get now c i = Inr (Some src) \<and> l \<in> set (links src)
                     \<and> get now c (target_id l) = Inr (Some t)}"
    using outgoing_notes_by_get [OF assms(1)] by blast
  have "set ns = {t. \<exists>src l d. get now c i = Inr (Some src) \<and> l \<in> set (links src)
                     \<and> d \<in> set c \<and> d_id d = Some (target_id l)
                     \<and> document_to_note now d = Inr t}"
    unfolding ns(3) get_Some_distinct [OF assms(2)] by blast
  with ns(1,2) show ?thesis by blast
qed

theorem find_linked_notes_outgoing_witness:
  "find_linked_notes 0 example_collection ''n1'' ''outgoing'' = Inr [example_note2]
   \<and> find_linked_notes 0 [example_document] ''n1'' ''outgoing'' = Inr []
   \<and> find_linked_notes 0 linked_collection ''n3'' ''outgoing''
       = Inr [example_note2, example_note_upd\<lparr>updated_at := 9\<rparr>]
   \<and> (\<exists>ns. find_linked_notes 0 linked_collection ''n3'' ''outgoing'' = Inr ns \<and> distinct ns
        \<and> set ns = {t. \<exists>src l d. get 0 linked_collection ''n3'' = Inr (Some src)
                     \<and> l \<in> set (links src) \<and> d \<in> set linked_collection
                     \<and> d_id d = Some (target_id l) \<and> document_to_note 0 d = Inr t})"
proof -
  have r: "reachable any_note linked_collection"
    by (rule example_reachable(3)) (simp_all add: any_note_def)
  have h: "distinct (map d_id linked_collection)
           \<and> (\<forall>d \<in> set linked_collection. \<exists>n. document_to_note 0 d = Inr n)"
    by (rule reachable_decodable [OF r])
  have a: "find_linked_notes 0 example_collection ''n1'' ''outgoing'' = Inr [example_note2]"
    by code_simp
  have b: "find_linked_notes 0 [example_document] ''n1'' ''outgoing'' = Inr []"
    by code_simp
  have c: "find_linked_notes 0 linked_collection ''n3'' ''outgoing''
       = Inr [example_note2, example_note_upd\<lparr>updated_at := 9\<rparr>]"
    by code_simp
  show ?thesis
    using find_linked_notes_outgoing [OF conjunct2 [OF h] conjunct1 [OF h], of "''n3''"] a b c
    by blast
qed

end
